theory Spec2Isabelle
  imports Main "HOL-Library.Word"
begin

unbundle bit_operations_syntax

section \<open>types.go: wide integers\<close>

text \<open>
  \<^verbatim>\<open>mapping.HugeInt\<close> is the engine's 128-bit integer: a pair of an unsigned 64-bit
  \<open>lower\<close> and a signed 64-bit \<open>upper\<close> (\<^verbatim>\<open>NewHugeInt(lower uint64, upper int64)\<close>).
  Both halves are 64-bit words; \<open>upper\<close> is read with \<open>sint\<close>, \<open>lower\<close> with \<open>uint\<close>.
  Go's \<^verbatim>\<open>*big.Int\<close> is \<open>int\<close>.
\<close>

record HugeInt =
  lower :: "64 word"
  upper :: "64 word"

definition NewHugeInt :: "64 word \<Rightarrow> 64 word \<Rightarrow> HugeInt" where
  "NewHugeInt lo hi = \<lparr>lower = lo, upper = hi\<rparr>"

text \<open>
  The failures of this layer as values. \<open>TooBigForHugeInt i\<close> is the
  \<^verbatim>\<open>fmt.Errorf("big.Int(%s) is too big for HUGEINT", i.String())\<close> of
  \<^verbatim>\<open>hugeIntFromNative\<close> (the range error of the specification);
  \<open>conversionError year lo hi\<close> and \<open>castError from to\<close> are the helpers of the same
  names that \<^verbatim>\<open>getTSTicks\<close> and \<^verbatim>\<open>castToTime\<close> call.
\<close>

datatype conv_error =
    TooBigForHugeInt int
  | conversionError int int int
  | castError string string

text \<open>\<^verbatim>\<open>big.Int.IsInt64\<close>: the value fits a signed 64-bit integer.\<close>

definition IsInt64 :: "int \<Rightarrow> bool" where
  "IsInt64 q = (- (2 ^ 63) \<le> q \<and> q \<le> 2 ^ 63 - 1)"

text \<open>
  \<^verbatim>\<open>hugeIntToNative\<close>: \<^verbatim>\<open>big.NewInt(upper)\<close>, shifted left by 64 bits (\<^verbatim>\<open>Lsh\<close> keeps
  the sign and shifts the magnitude, so it multiplies by \<open>2 ^ 64\<close>), plus \<open>lower\<close> read
  as unsigned.
\<close>

definition hugeIntToNative :: "HugeInt \<Rightarrow> int" where
  "hugeIntToNative hugeInt =
     (let i = sint (upper hugeInt);
          i = i * 2 ^ 64;
          i = i + uint (lower hugeInt)
      in i)"

text \<open>
  \<^verbatim>\<open>hugeIntFromNative\<close>: \<^verbatim>\<open>q.DivMod(i, d, r)\<close> with \<open>d = 1 << 64\<close> is Euclidean division;
  for a positive divisor it is \<open>div\<close> and \<open>mod\<close> of \<open>int\<close> (\<open>0 \<le> r < d\<close>).
  \<^verbatim>\<open>r.Uint64()\<close> and \<^verbatim>\<open>q.Int64()\<close> keep the low 64 bits.
\<close>

definition hugeIntFromNative :: "int \<Rightarrow> conv_error + HugeInt" where
  "hugeIntFromNative i =
     (let d = (2 :: int) ^ 64;
          q = i div d;
          r = i mod d
      in if \<not> IsInt64 q then Inl (TooBigForHugeInt i)
         else Inr (NewHugeInt (word_of_int r) (word_of_int q)))"

subsection \<open>UUIDs\<close>

text \<open>
  \<^verbatim>\<open>type UUID [16]byte\<close>: a byte list; the array type fixes its length at 16, which the
  theorems carry as \<open>length u = uuidLength\<close>.
  \<^verbatim>\<open>binary.BigEndian.Uint64\<close> and \<^verbatim>\<open>PutUint64\<close> are written out as in
  \<^verbatim>\<open>encoding/binary\<close>: byte 0 is the most significant.
\<close>

type_synonym byte = "8 word"

definition uuidLength :: nat where
  "uuidLength = 16"

definition BigEndian_Uint64 :: "byte list \<Rightarrow> 64 word" where
  "BigEndian_Uint64 b =
     ucast (b ! 7) OR push_bit 8 (ucast (b ! 6)) OR push_bit 16 (ucast (b ! 5)) OR
     push_bit 24 (ucast (b ! 4)) OR push_bit 32 (ucast (b ! 3)) OR
     push_bit 40 (ucast (b ! 2)) OR push_bit 48 (ucast (b ! 1)) OR
     push_bit 56 (ucast (b ! 0))"

definition BigEndian_PutUint64 :: "64 word \<Rightarrow> byte list" where
  "BigEndian_PutUint64 v =
     [ucast (drop_bit 56 v), ucast (drop_bit 48 v), ucast (drop_bit 40 v),
      ucast (drop_bit 32 v), ucast (drop_bit 24 v), ucast (drop_bit 16 v),
      ucast (drop_bit 8 v), ucast v]"

text \<open>
  \<^verbatim>\<open>hugeIntToUUID\<close>: \<^verbatim>\<open>uint64(upper)^1<<63\<close> parses as \<open>uint64(upper) XOR (1 << 63)\<close>
  (in Go \<^verbatim>\<open><<\<close> binds tighter than \<^verbatim>\<open>^\<close>).
\<close>

definition hugeIntToUUID :: "HugeInt \<Rightarrow> byte list" where
  "hugeIntToUUID hugeInt =
     BigEndian_PutUint64 (upper hugeInt XOR push_bit 63 1) @ BigEndian_PutUint64 (lower hugeInt)"

definition uuidToHugeInt :: "byte list \<Rightarrow> HugeInt" where
  "uuidToHugeInt uuid =
     (let lower = BigEndian_Uint64 (drop 8 uuid);
          upper = BigEndian_Uint64 (take 8 uuid)
      in NewHugeInt lower (upper XOR push_bit 63 1))"

subsection \<open>Decimals\<close>

text \<open>
  \<^verbatim>\<open>Decimal\<close>: \<open>Width\<close> and \<open>Scale\<close> are \<^verbatim>\<open>uint8\<close>, \<open>Value\<close> a (non-nil) \<^verbatim>\<open>*big.Int\<close>.
\<close>

record Decimal =
  Width :: "8 word"
  Scale :: "8 word"
  Value :: int

text \<open>\<^verbatim>\<open>big.Int.String\<close>: the decimal digits, with a leading minus sign when negative.\<close>

definition digit_char :: "nat \<Rightarrow> char" where
  "digit_char n = ''0123456789'' ! n"

fun nat_digits :: "nat \<Rightarrow> string" where
  "nat_digits n = (if n < 10 then [digit_char n] else nat_digits (n div 10) @ [digit_char (n mod 10)])"

declare nat_digits.simps [simp del]

definition Int_String :: "int \<Rightarrow> string" where
  "Int_String i = (if i < 0 then CHR ''-'' # nat_digits (nat (- i)) else nat_digits (nat i))"

text \<open>\<^verbatim>\<open>strings.TrimRightFunc\<close> with the predicate \<^verbatim>\<open>r == '0'\<close>, and \<^verbatim>\<open>strings.Repeat\<close>.\<close>

definition TrimRightZeros :: "string \<Rightarrow> string" where
  "TrimRightZeros s = rev (dropWhile (\<lambda>r. r = CHR ''0'') (rev s))"

definition Repeat :: "string \<Rightarrow> int \<Rightarrow> string" where
  "Repeat s count = concat (replicate (nat count) s)"

definition Decimal_String :: "Decimal \<Rightarrow> string" where
  "Decimal_String d =
     (if sgn (Value d) = 0 then ''0''
      else
        let scaleless0 = Int_String (Value d);
            signStr = (if sgn (Value d) < 0 then ''-'' else '''');
            scaleless = (if sgn (Value d) < 0 then drop 1 scaleless0 else scaleless0);
            zeroTrimmed = TrimRightZeros scaleless;
            scale = uint (Scale d) - (int (length scaleless) - int (length zeroTrimmed))
        in if scale \<le> 0 then signStr @ zeroTrimmed @ Repeat ''0'' (-1 * scale)
           else if int (length zeroTrimmed) \<le> scale
             then signStr @ ''0.'' @ Repeat ''0'' (scale - int (length zeroTrimmed)) @ zeroTrimmed
           else signStr @ take (nat (int (length zeroTrimmed) - scale)) zeroTrimmed @ ''.''
                  @ drop (nat (int (length zeroTrimmed) - scale)) zeroTrimmed)"

subsection \<open>Timestamps\<close>

text \<open>
  The type ids of \<^verbatim>\<open>Type\<close> that the modelled functions name (the enumeration itself is
  declared outside these files).
\<close>

datatype Type =
    TYPE_SMALLINT | TYPE_INTEGER | TYPE_BIGINT | TYPE_HUGEINT
  | TYPE_UTINYINT | TYPE_USMALLINT | TYPE_UINTEGER | TYPE_UBIGINT
  | TYPE_VARCHAR | TYPE_BLOB | TYPE_TIME | TYPE_TIME_TZ
  | TYPE_TIMESTAMP | TYPE_TIMESTAMP_S | TYPE_TIMESTAMP_MS | TYPE_TIMESTAMP_NS | TYPE_TIMESTAMP_TZ

text \<open>
  A \<^verbatim>\<open>time.Time\<close> in UTC, as far as \<^verbatim>\<open>getTSTicks\<close> reads it: the calendar year that
  \<^verbatim>\<open>Year()\<close> reports, the seconds since the Unix epoch and the nanoseconds within the
  second. The \<^verbatim>\<open>Unix*\<close> methods return \<^verbatim>\<open>int64\<close>; \<open>word_of_int\<close> wraps as Go's
  arithmetic does.
\<close>

record Time =
  Year :: int
  unixSec :: int
  nsec :: int

definition Unix :: "Time \<Rightarrow> 64 word" where
  "Unix ti = word_of_int (unixSec ti)"

definition UnixMilli :: "Time \<Rightarrow> 64 word" where
  "UnixMilli ti = word_of_int (unixSec ti * 1000 + nsec ti div 1000000)"

definition UnixMicro :: "Time \<Rightarrow> 64 word" where
  "UnixMicro ti = word_of_int (unixSec ti * 1000000 + nsec ti div 1000)"

definition UnixNano :: "Time \<Rightarrow> 64 word" where
  "UnixNano ti = word_of_int (unixSec ti * 1000000000 + nsec ti)"

text \<open>
  The argument of the generic \<^verbatim>\<open>castToTime[T any]\<close>: a \<^verbatim>\<open>time.Time\<close> (already in UTC,
  \<^verbatim>\<open>ti.UTC()\<close> keeps the instant), or a value of another type, given by the name that
  \<^verbatim>\<open>reflect.TypeOf(val).String()\<close> prints.
\<close>

datatype go_value = TimeValue Time | OtherValue string

definition castToTime :: "go_value \<Rightarrow> conv_error + Time" where
  "castToTime val =
     (case val of
        TimeValue v \<Rightarrow> Inr v
      | OtherValue tname \<Rightarrow> Inl (castError tname ''time.Time''))"

definition getTSTicks :: "Type \<Rightarrow> go_value \<Rightarrow> conv_error + 64 word" where
  "getTSTicks t val =
     (case castToTime val of
        Inl err \<Rightarrow> Inl err
      | Inr ti \<Rightarrow>
          if t = TYPE_TIMESTAMP_S then Inr (Unix ti)
          else if t = TYPE_TIMESTAMP_MS then Inr (UnixMilli ti)
          else
            let year = Year ti in
            if t = TYPE_TIMESTAMP \<or> t = TYPE_TIMESTAMP_TZ then
              (if year < - 290307 \<or> year > 294246
               then Inl (conversionError year (- 290307) 294246)
               else Inr (UnixMicro ti))
            else if year < 1678 \<or> year > 2262
              then Inl (conversionError year (- 290307) 294246)
            else Inr (UnixNano ti))"

section \<open>Vector getters\<close>

text \<open>
  The values a getter hands back as Go's \<^verbatim>\<open>any\<close>: \<open>AnyNil\<close> is the nil interface, \<open>AnyUnion\<close>
  a \<^verbatim>\<open>Union[any]\<close> held in an interface; the other constructors are what
  \<^verbatim>\<open>json.Unmarshal\<close> stores into an \<^verbatim>\<open>any\<close> and the text and byte values of
  \<^verbatim>\<open>getBytes\<close>. A \<^verbatim>\<open>float64\<close> is kept opaque.
\<close>

typedecl float64

datatype any =
    AnyNil
  | AnyBool bool
  | AnyFloat64 float64
  | AnyString string
  | AnyBytes string
  | AnySlice "any list"
  | AnyMap "(string \<times> any) list"
  | AnyUnion string any

record Union =
  MemberName :: string
  MemberValue :: any

text \<open>
  How a getter can stop without a result. The getters have the type
  \<^verbatim>\<open>func(vec *vector, rowIdx mapping.IdxT) any\<close>: there is no error result, so the only
  failures of the code are Go's run-time panics. \<open>DecodeError\<close> is the error of the
  specification's taxonomy; no getter constructs it.
\<close>

datatype failure = IndexOutOfRange | TypeAssertionFailed | DecodeError

text \<open>
  The fields of \<^verbatim>\<open>vector\<close> that the modelled getters read. The raw buffers behind
  \<^verbatim>\<open>dataPtr\<close> are functions of the row index: \<open>strings\<close> is what
  \<^verbatim>\<open>mapping.StringTData\<close> returns for the string descriptor at a row, \<open>tagData\<close> the
  \<^verbatim>\<open>int8\<close> buffer of \<^verbatim>\<open>mapping.StructVectorGetChild(vec.vec, 0)\<close>, \<open>maskPtr\<close> the
  64-bit words of the validity mask (\<open>None\<close> is the nil pointer). \<open>structEntries\<close> holds the
  entries' names, \<open>getFn\<close> the getter callback of the vector, already applied to it.
\<close>

datatype vector = Vector
  (Type: Type)
  (maskPtr: "(nat \<Rightarrow> 64 word) option")
  (strings: "nat \<Rightarrow> string")
  (tagData: "nat \<Rightarrow> 8 word")
  (childVectors: "vector list")
  (structEntries: "string list")
  (getFn: "nat \<Rightarrow> failure + any")

text \<open>
  \<^verbatim>\<open>mapping.ValidityMaskValueIsValid\<close> (the engine's \<^verbatim>\<open>duckdb_validity_row_is_valid\<close>) on a
  mask that is there: bit \<open>rowIdx mod 64\<close> of word \<open>rowIdx div 64\<close>.
\<close>

definition ValidityMaskValueIsValid :: "(nat \<Rightarrow> 64 word) \<Rightarrow> nat \<Rightarrow> bool" where
  "ValidityMaskValueIsValid validity rowIdx = bit (validity (rowIdx div 64)) (rowIdx mod 64)"

definition getNull :: "vector \<Rightarrow> nat \<Rightarrow> bool" where
  "getNull vec rowIdx =
     (case maskPtr vec of
        None \<Rightarrow> False
      | Some validity \<Rightarrow> \<not> ValidityMaskValueIsValid validity rowIdx)"

text \<open>
  \<^verbatim>\<open>getPrimitive\<close> views the buffer as \<^verbatim>\<open>*[1 << 31]T\<close> and indexes it: Go checks the
  index against the array length \<open>2 ^ 31\<close> and panics past it.
\<close>

definition getPrimitive :: "(nat \<Rightarrow> 'a) \<Rightarrow> nat \<Rightarrow> failure + 'a" where
  "getPrimitive xs rowIdx = (if rowIdx < 2 ^ 31 then Inr (xs rowIdx) else Inl IndexOutOfRange)"

text \<open>Indexing a Go slice: a panic outside \<open>0 \<le> i < len\<close>.\<close>

definition index :: "'a list \<Rightarrow> int \<Rightarrow> failure + 'a" where
  "index xs i = (if 0 \<le> i \<and> i < int (length xs) then Inr (xs ! nat i) else Inl IndexOutOfRange)"

definition getBytes :: "vector \<Rightarrow> nat \<Rightarrow> failure + any" where
  "getBytes vec rowIdx =
     (case getPrimitive (strings vec) rowIdx of
        Inl p \<Rightarrow> Inl p
      | Inr str \<Rightarrow> if Type vec = TYPE_VARCHAR then Inr (AnyString str) else Inr (AnyBytes str))"

text \<open>
  \<^verbatim>\<open>json.Unmarshal(data, &value)\<close> of Go's standard library, over a parameter \<open>parse\<close>
  that gives the value tree of a text the decoder accepts and \<open>None\<close> for a text it
  rejects. The decoder checks the whole input before it stores anything, so on a
  rejected text the destination keeps its old content. The result is the destination's
  new content and whether the text was rejected; \<^verbatim>\<open>getJSON\<close> drops the error in any case.
\<close>

definition json_Unmarshal :: "(string \<Rightarrow> any option) \<Rightarrow> string \<Rightarrow> any \<Rightarrow> any \<times> bool" where
  "json_Unmarshal parse data dest =
     (case parse data of
        None \<Rightarrow> (dest, True)
      | Some tree \<Rightarrow> (tree, False))"

text \<open>
  \<^verbatim>\<open>getJSON\<close>: the type assertion \<^verbatim>\<open>.(string)\<close> panics when \<^verbatim>\<open>getBytes\<close> returned a
  byte slice; the error of \<^verbatim>\<open>json.Unmarshal\<close> is assigned to \<^verbatim>\<open>_\<close>.
\<close>

definition getJSON :: "(string \<Rightarrow> any option) \<Rightarrow> vector \<Rightarrow> nat \<Rightarrow> failure + any" where
  "getJSON parse vec rowIdx =
     (case getBytes vec rowIdx of
        Inl p \<Rightarrow> Inl p
      | Inr (AnyString bytes) \<Rightarrow> Inr (fst (json_Unmarshal parse bytes AnyNil))
      | Inr _ \<Rightarrow> Inl TypeAssertionFailed)"

text \<open>
  \<^verbatim>\<open>getUnion\<close>. Both bounds checks of the source have an empty body (their
  \<^verbatim>\<open>return nil\<close> is commented out), so the statements after them run for every tag:
  first \<^verbatim>\<open>vec.childVectors[childVecIdx]\<close> and its getter, then
  \<^verbatim>\<open>vec.structEntries[tagIdx]\<close>.
\<close>

definition getUnion :: "vector \<Rightarrow> nat \<Rightarrow> failure + Union" where
  "getUnion vec rowIdx =
     (case getPrimitive (tagData vec) rowIdx of
        Inl p \<Rightarrow> Inl p
      | Inr tag \<Rightarrow>
          let tagIdx = sint tag;
              childVecIdx = tagIdx + 1
          in (case index (childVectors vec) childVecIdx of
                Inl p \<Rightarrow> Inl p
              | Inr child \<Rightarrow>
                  (case getFn child rowIdx of
                     Inl p \<Rightarrow> Inl p
                   | Inr v \<Rightarrow>
                       (case index (structEntries vec) tagIdx of
                          Inl p \<Rightarrow> Inl p
                        | Inr name \<Rightarrow> Inr \<lparr>MemberName = name, MemberValue = v\<rparr>))))"

section \<open>appender.go\<close>

text \<open>
  The errors of the appender. The sentinel errors \<open>errAppender...\<close> and the helpers
  \<open>getError\<close>, \<open>getDuckDBError\<close>, \<open>invalidatedAppenderError\<close> and \<open>columnCountError\<close>
  are declared outside these files; they are kept as constructors, so an error value
  records which helper built it from what. \<open>joinError\<close> is the value of
  \<^verbatim>\<open>errors.Join\<close> for its non-nil arguments.
\<close>

datatype error =
    errAppenderDoubleClose
  | errAppenderClose
  | errAppenderFlush
  | errAppenderAppendRow
  | errAppenderAppendAfterClose
  | columnCountError nat nat
  | getDuckDBError string
  | invalidatedAppenderError error
  | getError error "error option"
  | joinError "error list"
  | chunkError string

definition errors_Join :: "error option list \<Rightarrow> error option" where
  "errors_Join errs =
     (case List.map_filter id errs of
        [] \<Rightarrow> None
      | e # es \<Rightarrow> Some (joinError (e # es)))"

datatype State = StateSuccess | StateError

text \<open>
  A \<^verbatim>\<open>DataChunk\<close> as the appender uses it: the values written by \<^verbatim>\<open>SetValue\<close>, by
  column and row index, and the logical size set by \<^verbatim>\<open>SetSize\<close>.
\<close>

record 'v DataChunk =
  cells :: "nat \<times> nat \<Rightarrow> 'v option"
  chunkSize :: nat

text \<open>
  What lies outside \<^verbatim>\<open>appender.go\<close> and decides whether a call succeeds, as parameters:
  the engine's chunk capacity (\<^verbatim>\<open>GetDataChunkCapacity()\<close>), the error of
  \<^verbatim>\<open>DataChunk.initFromTypes\<close> for a type list, the error of a column's write
  (\<^verbatim>\<open>DataChunk.SetValue\<close>, by column index, row index and value), the error of
  \<^verbatim>\<open>DataChunk.SetSize\<close> for a size, and the states and error text the native appender
  returns from \<^verbatim>\<open>mapping.AppendDataChunk\<close>, \<^verbatim>\<open>AppenderFlush\<close>, \<^verbatim>\<open>AppenderDestroy\<close> and
  \<^verbatim>\<open>AppenderError\<close>.
\<close>

record ('t, 'v) engine =
  capacity :: nat
  initFromTypes_err :: "'t list \<Rightarrow> error option"
  SetValue_err :: "nat \<Rightarrow> nat \<Rightarrow> 'v \<Rightarrow> error option"
  SetSize_err :: "nat \<Rightarrow> error option"
  AppendDataChunk :: "'v DataChunk \<Rightarrow> State"
  AppenderFlush :: State
  AppenderDestroy :: State
  AppenderError :: string

text \<open>
  The \<^verbatim>\<open>Appender\<close>: \<open>closed\<close>, \<open>chunks\<close>, \<open>types\<close> and \<open>rowCount\<close> are the fields of the
  struct (\<open>rowCount\<close> only counts up from 0). \<open>appended\<close> and \<open>destroyed\<close> are the state
  of the native \<^verbatim>\<open>mapping.Appender\<close> handle: the chunks it has accepted, in order, and
  whether \<^verbatim>\<open>AppenderDestroy\<close> was called on it.
\<close>

record ('t, 'v) Appender =
  closed :: bool
  chunks :: "'v DataChunk list"
  types :: "'t list"
  rowCount :: nat
  appended :: "'v DataChunk list"
  destroyed :: bool

text \<open>The appender that \<^verbatim>\<open>NewAppender\<close> returns for a table with the column types \<open>ts\<close>.\<close>

definition NewAppender :: "'t list \<Rightarrow> ('t, 'v) Appender" where
  "NewAppender ts =
     \<lparr>closed = False, chunks = [], types = ts, rowCount = 0, appended = [], destroyed = False\<rparr>"

definition SetValue ::
  "('t, 'v) engine \<Rightarrow> 'v DataChunk \<Rightarrow> nat \<Rightarrow> nat \<Rightarrow> 'v \<Rightarrow> error + 'v DataChunk" where
  "SetValue E chunk colIdx rowIdx val =
     (case SetValue_err E colIdx rowIdx val of
        Some err \<Rightarrow> Inl err
      | None \<Rightarrow> Inr (chunk\<lparr>cells := (cells chunk)((colIdx, rowIdx) \<mapsto> val)\<rparr>))"

definition SetSize :: "('t, 'v) engine \<Rightarrow> 'v DataChunk \<Rightarrow> nat \<Rightarrow> error + 'v DataChunk" where
  "SetSize E chunk n =
     (case SetSize_err E n of
        Some err \<Rightarrow> Inl err
      | None \<Rightarrow> Inr (chunk\<lparr>chunkSize := n\<rparr>))"

definition addDataChunk ::
  "('t, 'v) engine \<Rightarrow> ('t, 'v) Appender \<Rightarrow> error option \<times> ('t, 'v) Appender" where
  "addDataChunk E a =
     (case initFromTypes_err E (types a) of
        Some err \<Rightarrow> (Some err, a)
      | None \<Rightarrow> (None, a\<lparr>chunks := chunks a @ [\<lparr>cells = Map.empty, chunkSize = 0\<rparr>]\<rparr>))"

text \<open>
  The loop \<^verbatim>\<open>for i, val := range args\<close> of \<^verbatim>\<open>appendRowSlice\<close> on the last chunk: it
  stops at the first write that fails; the writes before it stay in the chunk.
\<close>

fun setValues ::
  "('t, 'v) engine \<Rightarrow> 'v DataChunk \<Rightarrow> nat \<Rightarrow> nat \<Rightarrow> 'v list \<Rightarrow> error option \<times> 'v DataChunk" where
  "setValues E chunk i row [] = (None, chunk)"
| "setValues E chunk i row (val # args) =
     (case SetValue E chunk i row val of
        Inl err \<Rightarrow> (Some err, chunk)
      | Inr chunk' \<Rightarrow> setValues E chunk' (i + 1) row args)"

definition appendRowSlice ::
  "('t, 'v) engine \<Rightarrow> ('t, 'v) Appender \<Rightarrow> 'v list \<Rightarrow> error option \<times> ('t, 'v) Appender" where
  "appendRowSlice E a args =
     (if length args \<noteq> length (types a)
      then (Some (columnCountError (length args) (length (types a))), a)
      else
        (case (if rowCount a = capacity E \<or> length (chunks a) = 0
               then (case addDataChunk E a of
                       (Some err, a') \<Rightarrow> (Some err, a')
                     | (None, a') \<Rightarrow> (None, a'\<lparr>rowCount := 0\<rparr>))
               else (None, a)) of
           (Some err, a') \<Rightarrow> (Some err, a')
         | (None, a') \<Rightarrow>
             (case setValues E (last (chunks a')) 0 (rowCount a') args of
                (Some err, chunk) \<Rightarrow> (Some err, a'\<lparr>chunks := butlast (chunks a') @ [chunk]\<rparr>)
              | (None, chunk) \<Rightarrow>
                  (None, a'\<lparr>chunks := butlast (chunks a') @ [chunk],
                            rowCount := rowCount a' + 1\<rparr>))))"

definition AppendRow ::
  "('t, 'v) engine \<Rightarrow> ('t, 'v) Appender \<Rightarrow> 'v list \<Rightarrow> error option \<times> ('t, 'v) Appender" where
  "AppendRow E a args =
     (if closed a then (Some (getError errAppenderAppendAfterClose None), a)
      else
        (case appendRowSlice E a args of
           (Some err, a') \<Rightarrow> (Some (getError errAppenderAppendRow (Some err)), a')
         | (None, a') \<Rightarrow> (None, a')))"

text \<open>
  The first loop of \<^verbatim>\<open>appendDataChunks\<close>, from index \<open>i\<close> on: \<open>n\<close> is \<^verbatim>\<open>len(a.chunks)\<close>,
  \<open>rc\<close> is \<^verbatim>\<open>a.rowCount\<close>, \<open>acc\<close> the chunks the native appender holds. It breaks at the
  first error.
\<close>

fun appendChunksLoop ::
  "('t, 'v) engine \<Rightarrow> nat \<Rightarrow> nat \<Rightarrow> nat \<Rightarrow> 'v DataChunk list \<Rightarrow> 'v DataChunk list
     \<Rightarrow> error option \<times> 'v DataChunk list" where
  "appendChunksLoop E n rc i [] acc = (None, acc)"
| "appendChunksLoop E n rc i (chunk # rest) acc =
     (let sz = (if int i = int n - 1 then rc else capacity E) in
      (case SetSize E chunk sz of
         Inl err \<Rightarrow> (Some err, acc)
       | Inr chunk' \<Rightarrow>
           if AppendDataChunk E chunk' = StateError
           then (Some (getDuckDBError (AppenderError E)), acc)
           else appendChunksLoop E n rc (i + 1) rest (acc @ [chunk'])))"

text \<open>
  \<^verbatim>\<open>appendDataChunks\<close>: after the loop every chunk is closed, the chunk list is cut to
  length 0 and the row counter is reset, whatever the loop returned.
\<close>

definition appendDataChunks ::
  "('t, 'v) engine \<Rightarrow> ('t, 'v) Appender \<Rightarrow> error option \<times> ('t, 'v) Appender" where
  "appendDataChunks E a =
     (case appendChunksLoop E (length (chunks a)) (rowCount a) 0 (chunks a) (appended a) of
        (err, acc) \<Rightarrow> (err, a\<lparr>chunks := [], rowCount := 0, appended := acc\<rparr>))"

definition Flush ::
  "('t, 'v) engine \<Rightarrow> ('t, 'v) Appender \<Rightarrow> error option \<times> ('t, 'v) Appender" where
  "Flush E a =
     (case appendDataChunks E a of
        (Some err, a') \<Rightarrow> (Some (getError errAppenderFlush (Some (invalidatedAppenderError err))), a')
      | (None, a') \<Rightarrow>
          if AppenderFlush E = StateError
          then (Some (getError errAppenderFlush
                  (Some (invalidatedAppenderError (getDuckDBError (AppenderError E))))), a')
          else (None, a'))"

definition Close ::
  "('t, 'v) engine \<Rightarrow> ('t, 'v) Appender \<Rightarrow> error option \<times> ('t, 'v) Appender" where
  "Close E a =
     (if closed a then (Some (getError errAppenderDoubleClose None), a)
      else
        (case appendDataChunks E (a\<lparr>closed := True\<rparr>) of
           (errAppend, a') \<Rightarrow>
             let errFlush = (if AppenderFlush E = StateError
                             then Some (getDuckDBError (AppenderError E)) else None);
                 errClose = (if AppenderDestroy E = StateError then Some errAppenderClose else None);
                 err = errors_Join [errAppend, errFlush, errClose]
             in (case err of
                   Some e \<Rightarrow> (Some (getError (invalidatedAppenderError e) None), a'\<lparr>destroyed := True\<rparr>)
                 | None \<Rightarrow> (None, a'\<lparr>destroyed := True\<rparr>))))"

text \<open>A caller that appends the rows of a list one by one and stops at the first error.\<close>

fun AppendRows ::
  "('t, 'v) engine \<Rightarrow> ('t, 'v) Appender \<Rightarrow> 'v list list \<Rightarrow> error option \<times> ('t, 'v) Appender" where
  "AppendRows E a [] = (None, a)"
| "AppendRows E a (args # rows) =
     (case AppendRow E a args of
        (Some err, a') \<Rightarrow> (Some err, a')
      | (None, a') \<Rightarrow> AppendRows E a' rows)"

text \<open>
  The bookkeeping of the appender, as a predicate for the proofs: \<open>buffered cap a n\<close> says
  that the chunk list and the row counter of \<open>a\<close> hold \<open>n\<close> rows, every chunk but the
  last filled to \<open>cap\<close> rows and the last one holding \<open>rowCount a\<close> of them.
\<close>

definition buffered :: "nat \<Rightarrow> ('t, 'v) Appender \<Rightarrow> nat \<Rightarrow> bool" where
  "buffered cap a n =
     (if chunks a = [] then rowCount a = 0 \<and> n = 0
      else 1 \<le> rowCount a \<and> rowCount a \<le> cap \<and>
           n = (length (chunks a) - 1) * cap + rowCount a)"

section \<open>Properties of the wide-integer conversions\<close>

lemma IsInt64_div_iff:
  "IsInt64 (v div 2 ^ 64) \<longleftrightarrow> - (2 ^ 127) \<le> v \<and> v \<le> 2 ^ 127 - 1"
proof -
  define q where "q = v div 18446744073709551616"
  define r where "r = v mod 18446744073709551616"
  have v: "v = q * 18446744073709551616 + r"
    unfolding q_def r_def by simp
  have r: "0 \<le> r" "r < 18446744073709551616"
    unfolding r_def by simp_all
  have "(- 9223372036854775808 \<le> q \<and> q \<le> 9223372036854775807) \<longleftrightarrow>
        (- 170141183460469231731687303715884105728 \<le> v \<and>
         v \<le> 170141183460469231731687303715884105727)"
    using v r by linarith
  then show ?thesis
    unfolding IsInt64_def q_def by simp
qed

lemma sint_word_of_int_IsInt64:
  "IsInt64 q \<Longrightarrow> sint (word_of_int q :: 64 word) = q"
  unfolding IsInt64_def
  by (simp add: signed_of_int signed_take_bit_int_eq_self)

lemma uint_word_of_int_mod64:
  "uint (word_of_int (v mod 2 ^ 64) :: 64 word) = v mod 2 ^ 64"
  by (simp add: uint_word_of_int)

lemma IsInt64_sint: "IsInt64 (sint (w :: 64 word))"
  using sint_ge [of w] sint_lt [of w] unfolding IsInt64_def by simp

lemma hugeIntFromNative_in_range:
  assumes "- (2 ^ 127) \<le> v" "v \<le> 2 ^ 127 - 1"
  shows "hugeIntFromNative v =
    Inr (NewHugeInt (word_of_int (v mod 2 ^ 64)) (word_of_int (v div 2 ^ 64)))"
  using assms IsInt64_div_iff [of v] by (simp add: hugeIntFromNative_def Let_def)

lemma hugeIntToNative_NewHugeInt:
  "hugeIntToNative (NewHugeInt lo hi) = sint hi * 2 ^ 64 + uint lo"
  by (simp add: hugeIntToNative_def NewHugeInt_def Let_def)

lemma hugeIntToNative_FromNative:
  assumes "- (2 ^ 127) \<le> v" "v \<le> 2 ^ 127 - 1"
  shows "hugeIntToNative (NewHugeInt (word_of_int (v mod 2 ^ 64)) (word_of_int (v div 2 ^ 64))) = v"
proof -
  have q: "IsInt64 (v div 2 ^ 64)"
    using assms IsInt64_div_iff [of v] by simp
  show ?thesis
    unfolding hugeIntToNative_NewHugeInt sint_word_of_int_IsInt64 [OF q] uint_word_of_int_mod64
    by simp
qed

lemma hugeIntFromNative_ToNative:
  "hugeIntFromNative (hugeIntToNative h) = Inr h"
proof -
  define v where "v = sint (upper h) * 2 ^ 64 + uint (lower h)"
  have lo: "0 \<le> uint (lower h)" "uint (lower h) < 2 ^ 64"
    using uint_bounded [of "lower h"] by simp_all
  have q: "v div 2 ^ 64 = sint (upper h)"
    unfolding v_def using lo by (simp add: div_pos_pos_trivial)
  have r: "v mod 2 ^ 64 = uint (lower h)"
    unfolding v_def using lo by simp
  have "hugeIntFromNative v = Inr (NewHugeInt (lower h) (upper h))"
    unfolding hugeIntFromNative_def Let_def q r using IsInt64_sint [of "upper h"] by simp
  moreover have "hugeIntToNative h = v"
    unfolding v_def hugeIntToNative_def Let_def by simp
  ultimately show ?thesis
    by (simp add: NewHugeInt_def)
qed

text \<open>
  Claim C3. For every integer \<open>v\<close>, \<^verbatim>\<open>hugeIntFromNative\<close> succeeds exactly when
  \<open>- 2 ^ 127 \<le> v \<le> 2 ^ 127 - 1\<close>; the pair it then returns satisfies
  \<open>v = upper * 2 ^ 64 + lower\<close> (\<open>upper\<close> signed, \<open>lower\<close> unsigned); for every other \<open>v\<close>
  it returns the "too big for HUGEINT" error.
\<close>

theorem hugeIntFromNative_range:
  "(- (2 ^ 127) \<le> v \<and> v \<le> 2 ^ 127 - 1 \<longrightarrow>
      (\<exists>h. hugeIntFromNative v = Inr h \<and> v = sint (upper h) * 2 ^ 64 + uint (lower h))) \<and>
   (\<not> (- (2 ^ 127) \<le> v \<and> v \<le> 2 ^ 127 - 1) \<longrightarrow>
      hugeIntFromNative v = Inl (TooBigForHugeInt v))"
proof (intro conjI impI)
  assume r: "- (2 ^ 127) \<le> v \<and> v \<le> 2 ^ 127 - 1"
  let ?h = "NewHugeInt (word_of_int (v mod 2 ^ 64)) (word_of_int (v div 2 ^ 64))"
  have "hugeIntFromNative v = Inr ?h"
    using r by (simp only: hugeIntFromNative_in_range)
  moreover have "v = sint (upper ?h) * 2 ^ 64 + uint (lower ?h)"
    using r hugeIntToNative_FromNative [of v] hugeIntToNative_NewHugeInt
    by (simp add: NewHugeInt_def)
  ultimately show
    "\<exists>h. hugeIntFromNative v = Inr h \<and> v = sint (upper h) * 2 ^ 64 + uint (lower h)"
    by blast
next
  assume "\<not> (- (2 ^ 127) \<le> v \<and> v \<le> 2 ^ 127 - 1)"
  then have "\<not> IsInt64 (v div 2 ^ 64)"
    by (simp only: IsInt64_div_iff not_False_eq_True)
  then show "hugeIntFromNative v = Inl (TooBigForHugeInt v)"
    by (simp add: hugeIntFromNative_def Let_def)
qed

theorem hugeIntFromNative_range_witness:
  "(\<exists>h. hugeIntFromNative (2 ^ 127 - 1) = Inr h \<and>
        2 ^ 127 - 1 = sint (upper h) * 2 ^ 64 + uint (lower h)) \<and>
   (\<exists>h. hugeIntFromNative (- (2 ^ 127)) = Inr h \<and>
        - (2 ^ 127) = sint (upper h) * 2 ^ 64 + uint (lower h)) \<and>
   hugeIntFromNative (2 ^ 127) = Inl (TooBigForHugeInt (2 ^ 127)) \<and>
   hugeIntFromNative (- (2 ^ 127) - 1) = Inl (TooBigForHugeInt (- (2 ^ 127) - 1))"
  using hugeIntFromNative_range [of "2 ^ 127 - 1"] hugeIntFromNative_range [of "- (2 ^ 127)"]
    hugeIntFromNative_range [of "2 ^ 127"] hugeIntFromNative_range [of "- (2 ^ 127) - 1"]
  by simp

text \<open>
  Claim C4. \<^verbatim>\<open>hugeIntToNative\<close> inverts \<^verbatim>\<open>hugeIntFromNative\<close>: for every \<open>v\<close> of the signed
  128-bit range the conversion succeeds and converting back returns \<open>v\<close>.
  \<^verbatim>\<open>hugeIntToNative\<close> is a total function with no error result: on every pair it
  returns \<open>upper * 2 ^ 64 + lower\<close>, and \<^verbatim>\<open>hugeIntFromNative\<close> maps that integer back to
  the pair.
\<close>

theorem hugeInt_roundtrip:
  "(- (2 ^ 127) \<le> v \<and> v \<le> 2 ^ 127 - 1 \<longrightarrow>
      (\<exists>h. hugeIntFromNative v = Inr h \<and> hugeIntToNative h = v)) \<and>
   hugeIntToNative \<lparr>lower = lo, upper = hi\<rparr> = sint hi * 2 ^ 64 + uint lo \<and>
   hugeIntFromNative (hugeIntToNative \<lparr>lower = lo, upper = hi\<rparr>) = Inr \<lparr>lower = lo, upper = hi\<rparr>"
proof (intro conjI impI)
  assume r: "- (2 ^ 127) \<le> v \<and> v \<le> 2 ^ 127 - 1"
  then show "\<exists>h. hugeIntFromNative v = Inr h \<and> hugeIntToNative h = v"
    using hugeIntFromNative_in_range [of v] hugeIntToNative_FromNative [of v] by simp
next
  show "hugeIntToNative \<lparr>lower = lo, upper = hi\<rparr> = sint hi * 2 ^ 64 + uint lo"
    by (simp add: hugeIntToNative_def Let_def)
next
  show "hugeIntFromNative (hugeIntToNative \<lparr>lower = lo, upper = hi\<rparr>) =
      Inr \<lparr>lower = lo, upper = hi\<rparr>"
    by (rule hugeIntFromNative_ToNative)
qed

theorem hugeInt_roundtrip_witness:
  "hugeIntFromNative (- (2 ^ 64)) = Inr \<lparr>lower = 0, upper = - 1\<rparr> \<and>
   hugeIntToNative \<lparr>lower = 0, upper = - 1\<rparr> = - (2 ^ 64) \<and>
   (\<exists>h. hugeIntFromNative (2 ^ 127 - 1) = Inr h \<and> hugeIntToNative h = 2 ^ 127 - 1) \<and>
   (\<exists>h. hugeIntFromNative (- (2 ^ 127)) = Inr h \<and> hugeIntToNative h = - (2 ^ 127))"
proof -
  have a: "hugeIntToNative \<lparr>lower = 0, upper = - 1\<rparr> = - (2 ^ 64)"
    using hugeInt_roundtrip [of 0 0 "- 1"] by simp
  have b: "hugeIntFromNative (- (2 ^ 64)) = Inr \<lparr>lower = 0, upper = - 1\<rparr>"
    using hugeInt_roundtrip [of 0 0 "- 1"] unfolding a by simp
  show ?thesis
    using a b hugeInt_roundtrip [of "2 ^ 127 - 1" 0 0] hugeInt_roundtrip [of "- (2 ^ 127)" 0 0]
    by simp
qed

subsection \<open>UUIDs\<close>

lemma Put_Uint64:
  "BigEndian_PutUint64 (BigEndian_Uint64 [b0, b1, b2, b3, b4, b5, b6, b7]) =
     [b0, b1, b2, b3, b4, b5, b6, b7]"
  unfolding BigEndian_PutUint64_def BigEndian_Uint64_def
  apply simp
  apply (intro conjI bit_word_eqI)
         apply (auto simp add: bit_simps dest: bit_imp_le_length)
  done

lemma length8_cases:
  assumes "length bs = 8"
  obtains b0 b1 b2 b3 b4 b5 b6 b7 :: byte where "bs = [b0, b1, b2, b3, b4, b5, b6, b7]"
  using assms by (auto simp add: length_Suc_conv eval_nat_numeral)

lemma Put_Uint64_length:
  "length bs = 8 \<Longrightarrow> BigEndian_PutUint64 (BigEndian_Uint64 bs) = bs"
  by (erule length8_cases) (simp only: Put_Uint64)

lemma length_PutUint64: "length (BigEndian_PutUint64 v) = 8"
  by (simp add: BigEndian_PutUint64_def)

lemma bit_Uint64_Put:
  assumes "n < 64"
  shows "bit (BigEndian_Uint64 (BigEndian_PutUint64 v)) n = bit v n"
proof -
  consider "n < 8" | "8 \<le> n \<and> n < 16" | "16 \<le> n \<and> n < 24" | "24 \<le> n \<and> n < 32"
    | "32 \<le> n \<and> n < 40" | "40 \<le> n \<and> n < 48" | "48 \<le> n \<and> n < 56" | "56 \<le> n \<and> n < 64"
    using assms by linarith
  then show ?thesis
    unfolding BigEndian_PutUint64_def BigEndian_Uint64_def
    by cases (simp_all add: bit_simps, auto)
qed

lemma Uint64_Put: "BigEndian_Uint64 (BigEndian_PutUint64 v) = v"
  by (rule bit_word_eqI) (simp add: bit_Uint64_Put)

lemma xor_flip_twice: "(x XOR push_bit 63 1) XOR push_bit 63 1 = (x :: 64 word)"
  by (simp add: xor.assoc)

lemma flip_sign_bit:
  "bit (x XOR push_bit 63 1 :: 64 word) n \<longleftrightarrow> (bit x n \<noteq> (n = 63))"
proof -
  have "bit (push_bit 63 1 :: 64 word) n \<longleftrightarrow> n = 63"
    by (simp only: bit_push_bit_iff bit_1_iff) auto
  then show ?thesis
    by (simp only: bit_xor_iff)
qed

lemma hugeIntToUUID_uuidToHugeInt:
  assumes "length u = uuidLength"
  shows "hugeIntToUUID (uuidToHugeInt u) = u"
proof -
  have t: "length (take 8 u) = 8" and d: "length (drop 8 u) = 8"
    using assms by (simp_all add: uuidLength_def)
  have "hugeIntToUUID (uuidToHugeInt u) = take 8 u @ drop 8 u"
    unfolding hugeIntToUUID_def uuidToHugeInt_def NewHugeInt_def Let_def
    by (simp only: HugeInt.simps xor_flip_twice Put_Uint64_length [OF t] Put_Uint64_length [OF d])
  then show ?thesis by simp
qed

text \<open>
  Claim C5. For every 16-byte UUID \<open>u\<close>, \<^verbatim>\<open>hugeIntToUUID (uuidToHugeInt u)\<close> is \<open>u\<close> again.
  Both directions flip bit 63, and only bit 63, of the big-endian high 64 bits:
  \<open>upper\<close> of \<^verbatim>\<open>uuidToHugeInt u\<close> is the big-endian reading of the first eight bytes with
  bit 63 inverted, and the first eight bytes of \<^verbatim>\<open>hugeIntToUUID h\<close> read big-endian are
  \<open>upper h\<close> with bit 63 inverted; the low halves are copied.
\<close>

theorem uuid_roundtrip:
  assumes "length u = uuidLength"
  shows "hugeIntToUUID (uuidToHugeInt u) = u \<and>
    (bit (upper (uuidToHugeInt u)) n \<longleftrightarrow> (bit (BigEndian_Uint64 (take 8 u)) n \<noteq> (n = 63))) \<and>
    lower (uuidToHugeInt u) = BigEndian_Uint64 (drop 8 u) \<and>
    (bit (BigEndian_Uint64 (take 8 (hugeIntToUUID h))) n \<longleftrightarrow> (bit (upper h) n \<noteq> (n = 63))) \<and>
    BigEndian_Uint64 (drop 8 (hugeIntToUUID h)) = lower h \<and>
    length (hugeIntToUUID h) = uuidLength"
proof (intro conjI)
  show "hugeIntToUUID (uuidToHugeInt u) = u"
    using assms by (rule hugeIntToUUID_uuidToHugeInt)
  show "bit (upper (uuidToHugeInt u)) n \<longleftrightarrow> (bit (BigEndian_Uint64 (take 8 u)) n \<noteq> (n = 63))"
    by (simp only: uuidToHugeInt_def NewHugeInt_def Let_def HugeInt.simps flip_sign_bit)
  show "lower (uuidToHugeInt u) = BigEndian_Uint64 (drop 8 u)"
    by (simp add: uuidToHugeInt_def NewHugeInt_def Let_def)
  have "take 8 (hugeIntToUUID h) = BigEndian_PutUint64 (upper h XOR push_bit 63 1)"
    unfolding hugeIntToUUID_def by (simp add: length_PutUint64)
  then show "bit (BigEndian_Uint64 (take 8 (hugeIntToUUID h))) n \<longleftrightarrow> (bit (upper h) n \<noteq> (n = 63))"
    by (simp only: Uint64_Put flip_sign_bit)
  show "BigEndian_Uint64 (drop 8 (hugeIntToUUID h)) = lower h"
    unfolding hugeIntToUUID_def by (simp add: length_PutUint64 Uint64_Put)
  show "length (hugeIntToUUID h) = uuidLength"
    unfolding hugeIntToUUID_def by (simp add: length_PutUint64 uuidLength_def)
qed

theorem uuid_roundtrip_witness:
  "length [0x80, 0, 0, 0, 0, 0, 0, 0, 0, 0, 0x20, 0, 0, 0, 0, 0 :: byte] = uuidLength \<and>
   hugeIntToUUID (uuidToHugeInt [0x80, 0, 0, 0, 0, 0, 0, 0, 0, 0, 0x20, 0, 0, 0, 0, 0]) =
     [0x80, 0, 0, 0, 0, 0, 0, 0, 0, 0, 0x20, 0, 0, 0, 0, 0]"
  using uuid_roundtrip [of "[0x80, 0, 0, 0, 0, 0, 0, 0, 0, 0, 0x20, 0, 0, 0, 0, 0]" 63
      "\<lparr>lower = 0, upper = 0\<rparr>"]
  by (simp add: uuidLength_def)

subsection \<open>Decimal strings\<close>

lemma nat_digits_small: "n < 10 \<Longrightarrow> nat_digits n = [digit_char n]"
  by (subst nat_digits.simps) simp

lemma nat_digits_big:
  "\<not> n < 10 \<Longrightarrow> nat_digits n = nat_digits (n div 10) @ [digit_char (n mod 10)]"
  by (subst nat_digits.simps) simp

lemma digit_char_simps:
  "digit_char 0 = CHR ''0''" "digit_char 1 = CHR ''1''" "digit_char 2 = CHR ''2''"
  "digit_char 3 = CHR ''3''" "digit_char 4 = CHR ''4''" "digit_char 5 = CHR ''5''"
  "digit_char 6 = CHR ''6''" "digit_char 7 = CHR ''7''" "digit_char 8 = CHR ''8''"
  "digit_char 9 = CHR ''9''" "digit_char (Suc 0) = CHR ''1''"
  unfolding digit_char_def by (simp_all add: eval_nat_numeral)

lemma replicate_numeral_Cons:
  "replicate (numeral k) x = x # replicate (pred_numeral k) x"
  by (simp add: numeral_eq_Suc)

lemmas Decimal_String_eval =
  Decimal_String_def Int_String_def TrimRightZeros_def Repeat_def
  nat_digits_small nat_digits_big digit_char_simps replicate_numeral_Cons

text \<open>
  Claim C6. \<^verbatim>\<open>Decimal.String\<close> on the three decimals of the specification:
  width 18, scale 8, value -705399 prints \<^verbatim>\<open>-0.00705399\<close>; width 18, scale 0, value 0
  prints \<^verbatim>\<open>0\<close>; width 18, scale 1, value 1234567890 prints \<^verbatim>\<open>123456789\<close>.
\<close>

theorem Decimal_String_examples:
  "Decimal_String \<lparr>Width = 18, Scale = 8, Value = - 705399\<rparr> = ''-0.00705399'' \<and>
   Decimal_String \<lparr>Width = 18, Scale = 0, Value = 0\<rparr> = ''0'' \<and>
   Decimal_String \<lparr>Width = 18, Scale = 1, Value = 1234567890\<rparr> = ''123456789''"
proof (intro conjI)
  show "Decimal_String \<lparr>Width = 18, Scale = 8, Value = - 705399\<rparr> = ''-0.00705399''"
    by (simp add: Decimal_String_eval)
  show "Decimal_String \<lparr>Width = 18, Scale = 0, Value = 0\<rparr> = ''0''"
    by (simp add: Decimal_String_def)
  show "Decimal_String \<lparr>Width = 18, Scale = 1, Value = 1234567890\<rparr> = ''123456789''"
    by (simp add: Decimal_String_eval)
qed

subsection \<open>Timestamps\<close>

text \<open>
  For the nanosecond precision the guard of \<^verbatim>\<open>getTSTicks\<close> is \<open>1678 \<le> year \<le> 2262\<close>, but
  the error it builds passes the bounds of the microsecond branch to
  \<^verbatim>\<open>conversionError\<close>, for every time value outside the guard.
\<close>

lemma getTSTicks_NS_out_of_range:
  assumes "Year ti < 1678 \<or> Year ti > 2262"
  shows "getTSTicks TYPE_TIMESTAMP_NS (TimeValue ti) =
    Inl (conversionError (Year ti) (- 290307) 294246)"
  using assms by (simp add: getTSTicks_def castToTime_def Let_def)

text \<open>
  Claim C2 says that for \<^verbatim>\<open>TYPE_TIMESTAMP_NS\<close> the error reports the bounds 1678 and 2262.
  At midnight of 1 January 1677 (UTC) the code reports the year 1677 with the bounds
  -290307 and 294246 instead.
\<close>

theorem getTSTicks_NS_year_1677:
  "getTSTicks TYPE_TIMESTAMP_NS (TimeValue \<lparr>Year = 1677, unixSec = - 9246096000, nsec = 0\<rparr>) =
     Inl (conversionError 1677 (- 290307) 294246) \<and>
   getTSTicks TYPE_TIMESTAMP_NS (TimeValue \<lparr>Year = 1677, unixSec = - 9246096000, nsec = 0\<rparr>) \<noteq>
     Inl (conversionError 1677 1678 2262)"
  by (simp add: getTSTicks_def castToTime_def)

section \<open>Properties of the vector getters\<close>

text \<open>
  Claim C10. For a vector whose validity-mask pointer is nil, \<^verbatim>\<open>getNull\<close> returns false
  at every row index.
\<close>

theorem getNull_nil_mask:
  "maskPtr vec = None \<Longrightarrow> getNull vec rowIdx = False"
  by (simp add: getNull_def)

theorem getNull_nil_mask_witness:
  "maskPtr (Vector TYPE_BIGINT None (\<lambda>_. []) (\<lambda>_. 0) [] [] (\<lambda>_. Inr AnyNil)) = None \<and>
   getNull (Vector TYPE_BIGINT None (\<lambda>_. []) (\<lambda>_. 0) [] [] (\<lambda>_. Inr AnyNil)) 7 = False"
  using getNull_nil_mask [of "Vector TYPE_BIGINT None (\<lambda>_. []) (\<lambda>_. 0) [] [] (\<lambda>_. Inr AnyNil)" 7]
  by simp

text \<open>
  Claim C8. For a cell of a JSON column (its vector has the type id \<^verbatim>\<open>TYPE_VARCHAR\<close>, and
  the row index lies inside the \<open>2 ^ 31\<close> rows the getter can address): when the text is
  not valid JSON, \<^verbatim>\<open>getJSON\<close> returns the nil value; when it is valid, it returns the
  parsed tree; in either case it returns a value and no failure.
\<close>

theorem getJSON_soft_fail:
  assumes "Type vec = TYPE_VARCHAR" and "rowIdx < 2 ^ 31"
  shows "(parse (strings vec rowIdx) = None \<longrightarrow> getJSON parse vec rowIdx = Inr AnyNil) \<and>
    (\<forall>tree. parse (strings vec rowIdx) = Some tree \<longrightarrow> getJSON parse vec rowIdx = Inr tree) \<and>
    (\<exists>v. getJSON parse vec rowIdx = Inr v)"
  using assms
  by (cases "parse (strings vec rowIdx)")
    (simp_all add: getJSON_def getBytes_def getPrimitive_def json_Unmarshal_def)

theorem getJSON_soft_fail_witness:
  "getJSON (\<lambda>s. if s = ''true'' then Some (AnyBool True) else None)
     (Vector TYPE_VARCHAR None (\<lambda>i. if i = 0 then ''{bad'' else ''true'') (\<lambda>_. 0) [] []
        (\<lambda>_. Inr AnyNil)) 0 = Inr AnyNil \<and>
   getJSON (\<lambda>s. if s = ''true'' then Some (AnyBool True) else None)
     (Vector TYPE_VARCHAR None (\<lambda>i. if i = 0 then ''{bad'' else ''true'') (\<lambda>_. 0) [] []
        (\<lambda>_. Inr AnyNil)) 1 = Inr (AnyBool True)"
  using
    getJSON_soft_fail [of "Vector TYPE_VARCHAR None (\<lambda>i. if i = 0 then ''{bad'' else ''true'')
        (\<lambda>_. 0) [] [] (\<lambda>_. Inr AnyNil)" 0 "\<lambda>s. if s = ''true'' then Some (AnyBool True) else None"]
    getJSON_soft_fail [of "Vector TYPE_VARCHAR None (\<lambda>i. if i = 0 then ''{bad'' else ''true'')
        (\<lambda>_. 0) [] [] (\<lambda>_. Inr AnyNil)" 1 "\<lambda>s. if s = ''true'' then Some (AnyBool True) else None"]
  by simp


lemma index_out_of_range:
  "i < 0 \<or> int (length xs) \<le> i \<Longrightarrow> index xs i = Inl IndexOutOfRange"
  by (auto simp add: index_def)

text \<open>
  The source opens \<^verbatim>\<open>getUnion\<close> with a check under the comment "Make sure the tag index
  is within bounds", but the body of the check is empty. For a tag outside
  \<open>0 \<le> tag < memberCount\<close> (\<open>memberCount\<close> is the number of struct entries) the code
  therefore runs on: it returns no union value, and stops with the index panic of
  \<^verbatim>\<open>vec.childVectors[tagIdx + 1]\<close> or \<^verbatim>\<open>vec.structEntries[tagIdx]\<close>, or with whatever
  failure the child getter, which is called in between, ends in.
\<close>

lemma getUnion_out_of_range_no_value:
  assumes "sint (tagData vec rowIdx) < 0 \<or>
    int (length (structEntries vec)) \<le> sint (tagData vec rowIdx)"
  shows "(getUnion vec rowIdx = Inl IndexOutOfRange \<or>
      (\<exists>child f. child \<in> set (childVectors vec) \<and> getFn child rowIdx = Inl f \<and>
         getUnion vec rowIdx = Inl f)) \<and>
    (\<forall>u. getUnion vec rowIdx \<noteq> Inr u)"
proof -
  have entries: "index (structEntries vec) (sint (tagData vec rowIdx)) = Inl IndexOutOfRange"
    using assms by (rule index_out_of_range)
  have child_in: "child \<in> set (childVectors vec)"
    if "index (childVectors vec) i = Inr child" for i child
    using that by (auto simp add: index_def split: if_splits)
  have main: "getUnion vec rowIdx = Inl IndexOutOfRange \<or>
      (\<exists>child f. child \<in> set (childVectors vec) \<and> getFn child rowIdx = Inl f \<and>
         getUnion vec rowIdx = Inl f)"
  proof (cases "rowIdx < 2 ^ 31")
    case False
    then show ?thesis
      by (simp add: getUnion_def getPrimitive_def)
  next
    case True
    show ?thesis
    proof (cases "index (childVectors vec) (sint (tagData vec rowIdx) + 1)")
      case (Inl p)
      then have "p = IndexOutOfRange"
        by (auto simp add: index_def split: if_splits)
      with Inl True show ?thesis
        by (simp add: getUnion_def getPrimitive_def Let_def)
    next
      case (Inr child)
      show ?thesis
      proof (cases "getFn child rowIdx")
        case (Inl f)
        with Inr True child_in [OF Inr] show ?thesis
          by (auto simp add: getUnion_def getPrimitive_def Let_def)
      next
        case (Inr v)
        with \<open>index (childVectors vec) (sint (tagData vec rowIdx) + 1) = Inr child\<close> True entries
        show ?thesis
          by (simp add: getUnion_def getPrimitive_def Let_def)
      qed
    qed
  qed
  then show ?thesis by auto
qed

text \<open>
  Claim C1 says that decoding a row whose tag is out of range fails with a
  \<open>DecodeError\<close>. On a union of two members (\<^verbatim>\<open>int_val\<close>, \<^verbatim>\<open>str_val\<close>; child 0 is the
  tag vector, children 1 and 2 hold the members) the code does otherwise. With the tag
  -1 at row 0 it passes the empty check, reads child vector 0, calls its getter and
  panics on \<^verbatim>\<open>vec.structEntries[-1]\<close>; with the tag 2 it panics on
  \<^verbatim>\<open>vec.childVectors[3]\<close>. Either outcome is Go's index-out-of-range panic, not a
  \<open>DecodeError\<close>.
\<close>

theorem getUnion_out_of_range_tag_panics:
  "getUnion
     (Vector TYPE_BIGINT None (\<lambda>_. []) (\<lambda>_. - 1)
        [Vector TYPE_BIGINT None (\<lambda>_. []) (\<lambda>_. 0) [] [] (\<lambda>_. Inr (AnyString ''tag'')),
         Vector TYPE_BIGINT None (\<lambda>_. []) (\<lambda>_. 0) [] [] (\<lambda>_. Inr (AnyString ''int'')),
         Vector TYPE_VARCHAR None (\<lambda>_. []) (\<lambda>_. 0) [] [] (\<lambda>_. Inr (AnyString ''str''))]
        [''int_val'', ''str_val''] (\<lambda>_. Inr AnyNil)) 0 = Inl IndexOutOfRange \<and>
   getUnion
     (Vector TYPE_BIGINT None (\<lambda>_. []) (\<lambda>_. - 1)
        [Vector TYPE_BIGINT None (\<lambda>_. []) (\<lambda>_. 0) [] [] (\<lambda>_. Inr (AnyString ''tag'')),
         Vector TYPE_BIGINT None (\<lambda>_. []) (\<lambda>_. 0) [] [] (\<lambda>_. Inr (AnyString ''int'')),
         Vector TYPE_VARCHAR None (\<lambda>_. []) (\<lambda>_. 0) [] [] (\<lambda>_. Inr (AnyString ''str''))]
        [''int_val'', ''str_val''] (\<lambda>_. Inr AnyNil)) 0 \<noteq> Inl DecodeError \<and>
   getUnion
     (Vector TYPE_BIGINT None (\<lambda>_. []) (\<lambda>_. 2)
        [Vector TYPE_BIGINT None (\<lambda>_. []) (\<lambda>_. 0) [] [] (\<lambda>_. Inr (AnyString ''tag'')),
         Vector TYPE_BIGINT None (\<lambda>_. []) (\<lambda>_. 0) [] [] (\<lambda>_. Inr (AnyString ''int'')),
         Vector TYPE_VARCHAR None (\<lambda>_. []) (\<lambda>_. 0) [] [] (\<lambda>_. Inr (AnyString ''str''))]
        [''int_val'', ''str_val''] (\<lambda>_. Inr AnyNil)) 0 = Inl IndexOutOfRange \<and>
   getUnion
     (Vector TYPE_BIGINT None (\<lambda>_. []) (\<lambda>_. 2)
        [Vector TYPE_BIGINT None (\<lambda>_. []) (\<lambda>_. 0) [] [] (\<lambda>_. Inr (AnyString ''tag'')),
         Vector TYPE_BIGINT None (\<lambda>_. []) (\<lambda>_. 0) [] [] (\<lambda>_. Inr (AnyString ''int'')),
         Vector TYPE_VARCHAR None (\<lambda>_. []) (\<lambda>_. 0) [] [] (\<lambda>_. Inr (AnyString ''str''))]
        [''int_val'', ''str_val''] (\<lambda>_. Inr AnyNil)) 0 \<noteq> Inl DecodeError"
  by (simp add: getUnion_def getPrimitive_def index_def)

section \<open>Properties of the appender\<close>

text \<open>
  Claim C9. Whatever the engine answers to the chunk appends, the flush and the destroy
  of the first \<^verbatim>\<open>Close\<close>, the appender is closed afterwards, and every further
  \<^verbatim>\<open>Close\<close> returns the double-close error (and changes nothing). The error of a first
  \<^verbatim>\<open>Close\<close>, if there is one, is another error.
\<close>

theorem Close_twice:
  "closed (snd (Close E a)) \<and>
   Close E' (snd (Close E a)) = (Some (getError errAppenderDoubleClose None), snd (Close E a)) \<and>
   (\<not> closed a \<longrightarrow> fst (Close E a) \<noteq> Some (getError errAppenderDoubleClose None))"
proof -
  have c: "closed (snd (Close E a))"
    by (simp add: Close_def appendDataChunks_def Let_def split: prod.splits option.splits)
  then have "Close E' (snd (Close E a)) =
      (Some (getError errAppenderDoubleClose None), snd (Close E a))"
    by (simp add: Close_def)
  moreover have "fst (Close E a) \<noteq> Some (getError errAppenderDoubleClose None)" if "\<not> closed a"
    using that by (simp add: Close_def Let_def split: prod.splits option.splits)
  ultimately show ?thesis
    using c by blast
qed

text \<open>A fresh appender on an engine whose appends, flush and destroy all fail.\<close>

theorem Close_twice_witness:
  "Close
      \<lparr>capacity = 2048, initFromTypes_err = (\<lambda>_. None), SetValue_err = (\<lambda>_ _ _. None),
        SetSize_err = (\<lambda>_. None), AppendDataChunk = (\<lambda>_. StateError),
        AppenderFlush = StateError, AppenderDestroy = StateError, AppenderError = ''flush failed''\<rparr>
      (NewAppender [TYPE_BIGINT] :: (Type, int) Appender) =
     (Some (getError (invalidatedAppenderError
        (joinError [getDuckDBError ''flush failed'', errAppenderClose])) None),
      \<lparr>closed = True, chunks = [], types = [TYPE_BIGINT], rowCount = 0, appended = [],
         destroyed = True\<rparr>) \<and>
   Close
      \<lparr>capacity = 2048, initFromTypes_err = (\<lambda>_. None), SetValue_err = (\<lambda>_ _ _. None),
        SetSize_err = (\<lambda>_. None), AppendDataChunk = (\<lambda>_. StateError),
        AppenderFlush = StateError, AppenderDestroy = StateError, AppenderError = ''flush failed''\<rparr>
      (\<lparr>closed = True, chunks = [], types = [TYPE_BIGINT], rowCount = 0, appended = [],
         destroyed = True\<rparr> :: (Type, int) Appender) =
     (Some (getError errAppenderDoubleClose None),
      \<lparr>closed = True, chunks = [], types = [TYPE_BIGINT], rowCount = 0, appended = [],
         destroyed = True\<rparr>)"
proof -
  let ?E = "\<lparr>capacity = 2048, initFromTypes_err = (\<lambda>_. None), SetValue_err = (\<lambda>_ _ _. None),
        SetSize_err = (\<lambda>_. None), AppendDataChunk = (\<lambda>_. StateError),
        AppenderFlush = StateError, AppenderDestroy = StateError, AppenderError = ''flush failed''\<rparr> :: (Type, int) engine"
  let ?a = "NewAppender [TYPE_BIGINT] :: (Type, int) Appender"
  have first: "Close ?E ?a =
     (Some (getError (invalidatedAppenderError
        (joinError [getDuckDBError ''flush failed'', errAppenderClose])) None),
      \<lparr>closed = True, chunks = [], types = [TYPE_BIGINT], rowCount = 0, appended = [],
         destroyed = True\<rparr>)"
    by (simp add: Close_def NewAppender_def appendDataChunks_def errors_Join_def
        List.map_filter_simps)
  show ?thesis
    using Close_twice [of ?E ?a ?E] unfolding first by simp
qed

subsection \<open>Batching\<close>

lemma setValues_ok:
  assumes "\<forall>c r v. SetValue_err E c r v = None"
  shows "\<exists>chunk'. setValues E chunk i row args = (None, chunk') \<and>
    (\<forall>j<length args. cells chunk' (i + j, row) = Some (args ! j)) \<and>
    (\<forall>c r. c < i \<or> r \<noteq> row \<longrightarrow> cells chunk' (c, r) = cells chunk (c, r))"
proof (induction args arbitrary: chunk i)
  case Nil
  then show ?case by simp
next
  case (Cons val rest)
  let ?chunk1 = "chunk\<lparr>cells := (cells chunk)((i, row) \<mapsto> val)\<rparr>"
  from Cons.IH [of ?chunk1 "i + 1"] obtain chunk' where
    run: "setValues E ?chunk1 (i + 1) row rest = (None, chunk')" and
    written: "\<forall>j<length rest. cells chunk' (i + 1 + j, row) = Some (rest ! j)" and
    frame: "\<forall>c r. c < i + 1 \<or> r \<noteq> row \<longrightarrow> cells chunk' (c, r) = cells ?chunk1 (c, r)"
    by blast
  have "setValues E chunk i row (val # rest) = (None, chunk')"
    using assms run by (simp add: SetValue_def)
  moreover have "cells chunk' (i + j, row) = Some ((val # rest) ! j)" if "j < length (val # rest)" for j
  proof (cases j)
    case 0
    then show ?thesis using frame by simp
  next
    case (Suc k)
    then show ?thesis using written that by simp
  qed
  moreover have "cells chunk' (c, r) = cells chunk (c, r)" if "c < i \<or> r \<noteq> row" for c r
    using frame that by auto
  ultimately show ?case by blast
qed

lemma appendRowSlice_ok:
  assumes init: "\<forall>ts. initFromTypes_err E ts = None"
    and setv: "\<forall>c r v. SetValue_err E c r v = None"
    and cols: "length args = length (types a)"
    and cap: "0 < capacity E"
    and inv: "buffered (capacity E) a n"
  shows "\<exists>a'. appendRowSlice E a args = (None, a') \<and> buffered (capacity E) a' (Suc n) \<and>
    types a' = types a \<and> closed a' = closed a \<and> appended a' = appended a \<and>
    (rowCount a = capacity E \<or> chunks a = [] \<longrightarrow>
       length (chunks a') = Suc (length (chunks a)) \<and> rowCount a' = 1 \<and>
       (\<forall>j<length args. cells (last (chunks a')) (j, 0) = Some (args ! j)))"
proof (cases "rowCount a = capacity E \<or> chunks a = []")
  case True
  let ?fresh = "\<lparr>cells = Map.empty, chunkSize = 0\<rparr> :: 'b DataChunk"
  obtain chunk' where
    run: "setValues E ?fresh 0 0 args = (None, chunk')" and
    written: "\<forall>j<length args. cells chunk' (0 + j, 0) = Some (args ! j)"
    using setValues_ok [OF setv, of ?fresh 0 0 args] by blast
  let ?a' = "a\<lparr>chunks := chunks a @ [chunk'], rowCount := 1\<rparr>"
  have step: "appendRowSlice E a args = (None, ?a')"
    using True init cols run by (auto simp add: appendRowSlice_def addDataChunk_def)
  have "buffered (capacity E) ?a' (Suc n)"
    using True inv cap by (cases "chunks a") (auto simp add: buffered_def)
  with step written show ?thesis
    by simp
next
  case False
  then have ne: "chunks a \<noteq> []" and lt: "rowCount a \<noteq> capacity E"
    by simp_all
  obtain chunk' where
    run: "setValues E (last (chunks a)) 0 (rowCount a) args = (None, chunk')"
    using setValues_ok [OF setv, of "last (chunks a)" 0 "rowCount a" args] by blast
  let ?a' = "a\<lparr>chunks := butlast (chunks a) @ [chunk'], rowCount := rowCount a + 1\<rparr>"
  have step: "appendRowSlice E a args = (None, ?a')"
    using False cols run by (simp add: appendRowSlice_def)
  have "buffered (capacity E) ?a' (Suc n)"
    using ne lt inv by (auto simp add: buffered_def)
  with step False show ?thesis
    by simp
qed

lemma AppendRows_ok:
  assumes init: "\<forall>ts. initFromTypes_err E ts = None"
    and setv: "\<forall>c r v. SetValue_err E c r v = None"
    and cap: "0 < capacity E"
  shows "\<forall>args \<in> set rows. length args = length (types a) \<Longrightarrow> \<not> closed a \<Longrightarrow>
    buffered (capacity E) a n \<Longrightarrow>
    \<exists>a'. AppendRows E a rows = (None, a') \<and> buffered (capacity E) a' (n + length rows) \<and>
      types a' = types a \<and> \<not> closed a' \<and> appended a' = appended a"
proof (induction rows arbitrary: a n)
  case Nil
  then show ?case by simp
next
  case (Cons args rows)
  from Cons.prems have cols: "length args = length (types a)"
    by simp
  obtain a1 where
    step: "appendRowSlice E a args = (None, a1)" and
    inv1: "buffered (capacity E) a1 (Suc n)" and
    same: "types a1 = types a" "closed a1 = closed a" "appended a1 = appended a"
    using appendRowSlice_ok [OF init setv cols cap Cons.prems(3)] by blast
  have row: "AppendRow E a args = (None, a1)"
    using step Cons.prems(2) by (simp add: AppendRow_def)
  have "\<forall>args \<in> set rows. length args = length (types a1)" and "\<not> closed a1"
    using Cons.prems same by simp_all
  from Cons.IH [OF this inv1] obtain a' where
    "AppendRows E a1 rows = (None, a')" "buffered (capacity E) a' (Suc n + length rows)"
    "types a' = types a1" "\<not> closed a'" "appended a' = appended a1"
    by blast
  with row same show ?case
    by simp
qed

lemma buffered_boundary:
  assumes cap: "10 \<le> cap" and inv: "buffered cap a (cap * 3 + 10)"
  shows "length (chunks a) = 4 \<and> rowCount a = 10"
proof -
  from inv cap have ne: "chunks a \<noteq> []"
    by (auto simp add: buffered_def split: if_splits)
  define k where "k = length (chunks a) - 1"
  from inv ne have rc: "1 \<le> rowCount a" "rowCount a \<le> cap"
    and total: "cap * 3 + 10 = k * cap + rowCount a"
    by (simp_all add: buffered_def k_def)
  have "k = 3"
  proof (rule ccontr)
    assume "k \<noteq> 3"
    then consider "k \<le> 2" | "4 \<le> k" by linarith
    then show False
    proof cases
      case 1
      then have "k * cap \<le> 2 * cap" by (rule mult_le_mono1)
      with total rc cap show False by linarith
    next
      case 2
      then have "4 * cap \<le> k * cap" by (rule mult_le_mono1)
      with total rc cap show False by linarith
    qed
  qed
  with total ne show ?thesis
    by (cases "chunks a") (simp_all add: k_def)
qed

lemma appendChunksLoop_ok:
  assumes sets: "\<forall>n. SetSize_err E n = None"
    and app: "\<forall>c. AppendDataChunk E c = StateSuccess"
  shows "fst (appendChunksLoop E n rc i cs acc) = None \<and>
    map chunkSize (snd (appendChunksLoop E n rc i cs acc)) =
      map chunkSize acc @
      map (\<lambda>k. if int k = int n - 1 then rc else capacity E) [i..<i + length cs] \<and>
    map cells (snd (appendChunksLoop E n rc i cs acc)) = map cells acc @ map cells cs"
proof (induction cs arbitrary: i acc)
  case Nil
  then show ?case by simp
next
  case (Cons chunk rest)
  let ?sz = "if int i = int n - 1 then rc else capacity E"
  let ?chunk' = "chunk\<lparr>chunkSize := ?sz\<rparr>"
  have step: "appendChunksLoop E n rc i (chunk # rest) acc =
      appendChunksLoop E n rc (i + 1) rest (acc @ [?chunk'])"
    using sets app by (simp add: SetSize_def Let_def)
  have upt: "[i..<i + length (chunk # rest)] = i # [i + 1..<i + 1 + length rest]"
    using upt_conv_Cons [of i "i + Suc (length rest)"] by simp
  show ?case
    unfolding step upt using Cons.IH [of "i + 1" "acc @ [?chunk']"] by simp
qed

text \<open>
  Claim C7. The engine's chunk capacity is a parameter here; the claim needs it to be
  at least 10 (the engine's constant is 2048). On an engine that accepts every call,
  appending \<open>capacity * 3 + 10\<close> rows of the right width to a fresh appender leaves 4
  buffered chunks and the row counter at 10. \<^verbatim>\<open>Flush\<close> then hands the four chunks to the
  engine with the sizes capacity, capacity, capacity and 10, and leaves the chunk list
  empty and the row counter at 0. The next row allocates one fresh chunk and is written
  at row index 0 of it.
\<close>

theorem batching_boundary:
  assumes cap: "10 \<le> capacity E"
    and init: "\<forall>ts. initFromTypes_err E ts = None"
    and setv: "\<forall>c r v. SetValue_err E c r v = None"
    and sets: "\<forall>n. SetSize_err E n = None"
    and app: "\<forall>c. AppendDataChunk E c = StateSuccess"
    and fl: "AppenderFlush E = StateSuccess"
    and len: "length rows = capacity E * 3 + 10"
    and cols: "\<forall>args \<in> set rows. length args = length ts"
    and row: "length args = length ts"
  shows "\<exists>a1 a2 a3.
    AppendRows E (NewAppender ts) rows = (None, a1) \<and>
    length (chunks a1) = 4 \<and> rowCount a1 = 10 \<and>
    Flush E a1 = (None, a2) \<and>
    map chunkSize (appended a2) = [capacity E, capacity E, capacity E, 10] \<and>
    map cells (appended a2) = map cells (chunks a1) \<and>
    chunks a2 = [] \<and> rowCount a2 = 0 \<and>
    AppendRow E a2 args = (None, a3) \<and>
    length (chunks a3) = 1 \<and> rowCount a3 = 1 \<and>
    (\<forall>j<length args. cells (last (chunks a3)) (j, 0) = Some (args ! j))"
proof -
  let ?a0 = "NewAppender ts :: ('a, 'b) Appender"
  have pos: "0 < capacity E"
    using cap by simp
  have a0: "\<forall>args \<in> set rows. length args = length (types ?a0)" "\<not> closed ?a0"
    "buffered (capacity E) ?a0 0"
    using cols by (simp_all add: NewAppender_def buffered_def)
  from AppendRows_ok [OF init setv pos a0] obtain a1 where
    rows1: "AppendRows E ?a0 rows = (None, a1)" and
    inv1: "buffered (capacity E) a1 (0 + length rows)" and
    same1: "types a1 = types ?a0" "\<not> closed a1" "appended a1 = appended ?a0"
    by blast
  have count1: "length (chunks a1) = 4 \<and> rowCount a1 = 10"
    using buffered_boundary [OF cap, of a1] inv1 len by simp
  define acc' where "acc' = snd (appendChunksLoop E 4 10 0 (chunks a1) [])"
  have loop: "appendChunksLoop E 4 10 0 (chunks a1) [] = (None, acc')"
    using appendChunksLoop_ok [OF sets app, of 4 10 0 "chunks a1" "[]"]
    unfolding acc'_def by (simp add: prod_eq_iff)
  have sizes: "map chunkSize acc' =
      map (\<lambda>k. if int k = 3 then 10 else capacity E) [0..<length (chunks a1)]"
    using appendChunksLoop_ok [OF sets app, of 4 10 0 "chunks a1" "[]"]
    unfolding acc'_def by simp
  have cs: "map cells acc' = map cells (chunks a1)"
    using appendChunksLoop_ok [OF sets app, of 4 10 0 "chunks a1" "[]"]
    unfolding acc'_def by simp
  let ?a2 = "a1\<lparr>chunks := [], rowCount := 0, appended := acc'\<rparr>"
  have "appendDataChunks E a1 = (None, ?a2)"
    using loop count1 same1 by (simp add: appendDataChunks_def NewAppender_def)
  then have flush: "Flush E a1 = (None, ?a2)"
    using fl by (simp add: Flush_def)
  have upt4: "[0..<4] = [0, 1, 2, 3 :: nat]"
    by (simp add: eval_nat_numeral)
  have sizes2: "map chunkSize (appended ?a2) = [capacity E, capacity E, capacity E, 10]"
    using sizes count1 by (simp add: upt4)
  have a2: "length args = length (types ?a2)" "buffered (capacity E) ?a2 0" "\<not> closed ?a2"
    using row same1 by (simp_all add: buffered_def NewAppender_def)
  from appendRowSlice_ok [OF init setv a2(1) pos a2(2)] obtain a3 where
    step: "appendRowSlice E ?a2 args = (None, a3)" and
    fresh: "length (chunks a3) = Suc (length (chunks ?a2)) \<and> rowCount a3 = 1 \<and>
       (\<forall>j<length args. cells (last (chunks a3)) (j, 0) = Some (args ! j))"
    by auto
  have row3: "AppendRow E ?a2 args = (None, a3)"
    using step a2(3) by (simp add: AppendRow_def)
  show ?thesis
    using rows1 count1 flush sizes2 cs row3 fresh
    by (intro exI [of _ a1] exI [of _ ?a2] exI [of _ a3]) simp
qed

theorem batching_boundary_witness:
  "\<exists>a1 a2 a3.
    AppendRows
      \<lparr>capacity = 2048, initFromTypes_err = (\<lambda>_. None), SetValue_err = (\<lambda>_ _ _. None),
        SetSize_err = (\<lambda>_. None), AppendDataChunk = (\<lambda>_. StateSuccess),
        AppenderFlush = StateSuccess, AppenderDestroy = StateSuccess, AppenderError = []\<rparr>
      (NewAppender [TYPE_BIGINT, TYPE_VARCHAR])
      (replicate 6154 [AnyNil, AnyString ''x'']) = (None, a1) \<and>
    length (chunks a1) = 4 \<and> rowCount a1 = 10 \<and>
    Flush
      \<lparr>capacity = 2048, initFromTypes_err = (\<lambda>_. None), SetValue_err = (\<lambda>_ _ _. None),
        SetSize_err = (\<lambda>_. None), AppendDataChunk = (\<lambda>_. StateSuccess),
        AppenderFlush = StateSuccess, AppenderDestroy = StateSuccess, AppenderError = []\<rparr>
      a1 = (None, a2) \<and>
    map chunkSize (appended a2) = [2048, 2048, 2048, 10] \<and>
    map cells (appended a2) = map cells (chunks a1) \<and>
    chunks a2 = [] \<and> rowCount a2 = 0 \<and>
    AppendRow
      \<lparr>capacity = 2048, initFromTypes_err = (\<lambda>_. None), SetValue_err = (\<lambda>_ _ _. None),
        SetSize_err = (\<lambda>_. None), AppendDataChunk = (\<lambda>_. StateSuccess),
        AppenderFlush = StateSuccess, AppenderDestroy = StateSuccess, AppenderError = []\<rparr>
      a2 [AnyNil, AnyString ''y''] = (None, a3) \<and>
    length (chunks a3) = 1 \<and> rowCount a3 = 1 \<and>
    (\<forall>j<length [AnyNil, AnyString ''y''].
       cells (last (chunks a3)) (j, 0) = Some ([AnyNil, AnyString ''y''] ! j))"
proof -
  let ?E = "\<lparr>capacity = 2048, initFromTypes_err = (\<lambda>_. None), SetValue_err = (\<lambda>_ _ _. None),
        SetSize_err = (\<lambda>_. None), AppendDataChunk = (\<lambda>_. StateSuccess),
        AppenderFlush = StateSuccess, AppenderDestroy = StateSuccess, AppenderError = []\<rparr>
      :: (Type, any) engine"
  have c: "capacity ?E = 2048"
    by simp
  have h: "10 \<le> capacity ?E" "\<forall>ts. initFromTypes_err ?E ts = None"
    "\<forall>c r v. SetValue_err ?E c r v = None" "\<forall>n. SetSize_err ?E n = None"
    "\<forall>c. AppendDataChunk ?E c = StateSuccess" "AppenderFlush ?E = StateSuccess"
    "length (replicate 6154 [AnyNil, AnyString ''x'']) = capacity ?E * 3 + 10"
    "\<forall>args \<in> set (replicate 6154 [AnyNil, AnyString ''x'']).
       length args = length [TYPE_BIGINT, TYPE_VARCHAR]"
    "length [AnyNil, AnyString ''y''] = length [TYPE_BIGINT, TYPE_VARCHAR]"
    by simp_all
  show ?thesis
    using batching_boundary [OF h] unfolding c .
qed

end
